theory Spec2Isabelle
  imports Complex_Main
begin

section \<open>Inventory and bidding system (src/mian.py)\<close>

text \<open>
  Stock counts, quantities and the offer counter are Python integers (\<open>int\<close>).
  A bid amount is a Python float, which the code only compares (\<open>pyfloat\<close>, below);
  the unit price of the seed items is a fixed decimal (\<open>rat\<close>). A point in time is an
  \<open>int\<close> timestamp, and every call of \<open>datetime.now()\<close> is the explicit
  argument \<open>now\<close> of the operation that makes it. Log output is not modelled,
  except that \<open>complete_bid\<close>, which returns nothing, reports the branch it took.
\<close>

subsection \<open>Item\<close>

datatype error = ValueError

record Item =
  item_id :: string
  name :: string
  category :: string
  stock :: int
  unit_price :: rat
  last_restock_date :: "int \<times> int \<times> int"
  reorder_threshold :: int

text \<open>\<open>Item.adjust_stock\<close>: the raise comes before the assignment, so the error
  result carries no new item and the caller keeps the old one.\<close>

definition adjust_stock :: "Item \<Rightarrow> int \<Rightarrow> error + Item" where
  "adjust_stock it amount =
     (if stock it + amount < 0 then Inl ValueError
      else Inr (it\<lparr>stock := stock it + amount\<rparr>))"

subsection \<open>Bid amounts\<close>

text \<open>
  What the code observes of a float is its place in the order: a finite value (the exact
  rational it denotes; an integer amount is its value), an infinity, or NaN. Among the
  values other than NaN the comparisons are those of a linear order; every comparison
  with NaN is false.
\<close>

datatype xrat = MInf | Fin rat | PInf

instantiation xrat :: linorder
begin

fun less_eq_xrat :: "xrat \<Rightarrow> xrat \<Rightarrow> bool" where
  "less_eq_xrat MInf y = True"
| "less_eq_xrat x PInf = True"
| "less_eq_xrat (Fin x) (Fin y) = (x \<le> y)"
| "less_eq_xrat x y = False"

definition less_xrat :: "xrat \<Rightarrow> xrat \<Rightarrow> bool" where
  "less_xrat x y = (x \<le> y \<and> \<not> y \<le> x)"

instance
proof
  fix x y z :: xrat
  show "(x < y) = (x \<le> y \<and> \<not> y \<le> x)" by (simp add: less_xrat_def)
  show "x \<le> x" by (cases x) simp_all
  show "x \<le> y \<Longrightarrow> y \<le> z \<Longrightarrow> x \<le> z" by (cases x; cases y; cases z) simp_all
  show "x \<le> y \<Longrightarrow> y \<le> x \<Longrightarrow> x = y" by (cases x; cases y) simp_all
  show "x \<le> y \<or> y \<le> x" by (cases x; cases y) auto
qed

end

datatype pyfloat = NaN | Num xrat

abbreviation amt :: "rat \<Rightarrow> pyfloat" where
  "amt x \<equiv> Num (Fin x)"

text \<open>Python's \<open>a > b\<close> and \<open>a >= b\<close> on floats.\<close>

fun float_gt :: "pyfloat \<Rightarrow> pyfloat \<Rightarrow> bool" where
  "float_gt (Num x) (Num y) = (x > y)"
| "float_gt a b = False"

fun float_ge :: "pyfloat \<Rightarrow> pyfloat \<Rightarrow> bool" where
  "float_ge (Num x) (Num y) = (x \<ge> y)"
| "float_ge a b = False"

subsection \<open>Offer\<close>

datatype offer_status = Active | Completed | Cancelled

text \<open>The \<open>bids\<close> dictionary keeps insertion order, which \<open>max\<close> observes:
  an association list with one entry per key.\<close>

record Offer =
  offer_id :: string
  offer_item_id :: string
  quantity :: int
  end_time :: int
  bids :: "(string \<times> pyfloat) list"
  status :: offer_status
  winner :: "string option"
  winning_bid :: pyfloat

definition new_Offer :: "string \<Rightarrow> string \<Rightarrow> int \<Rightarrow> int \<Rightarrow> Offer" where
  "new_Offer oid iid q e =
     \<lparr>offer_id = oid, offer_item_id = iid, quantity = q, end_time = e,
      bids = [], status = Active, winner = None, winning_bid = amt 0\<rparr>"

text \<open>\<open>d[k] = v\<close>: an existing key keeps its position, a new key goes last.\<close>

fun dict_set :: "('k \<times> 'v) list \<Rightarrow> 'k \<Rightarrow> 'v \<Rightarrow> ('k \<times> 'v) list" where
  "dict_set [] k v = [(k, v)]"
| "dict_set ((k', v') # kvs) k v =
     (if k' = k then (k, v) # kvs else (k', v') # dict_set kvs k v)"

definition add_bid :: "Offer \<Rightarrow> string \<Rightarrow> pyfloat \<Rightarrow> int \<Rightarrow> Offer \<times> bool" where
  "add_bid offer merchant_id amount now =
     (if status offer \<noteq> Active then (offer, False)
      else if now > end_time offer then (offer, False)
      else if (case map_of (bids offer) merchant_id of
                 None \<Rightarrow> False
               | Some previous \<Rightarrow> float_ge previous amount) then (offer, False)
      else (offer\<lparr>bids := dict_set (bids offer) merchant_id amount\<rparr>, True))"

text \<open>Python's \<open>max(iterable, key=...)\<close>: the running maximum starts as the first
  item and is replaced only by an item whose key compares greater (\<open>>\<close>), so the first
  of several equal maxima is returned.\<close>

fun max_by_key :: "('a \<Rightarrow> pyfloat) \<Rightarrow> 'a \<Rightarrow> 'a list \<Rightarrow> 'a" where
  "max_by_key key best [] = best"
| "max_by_key key best (x # xs) =
     max_by_key key (if float_gt (key x) (key best) then x else best) xs"

definition get_highest_bid :: "Offer \<Rightarrow> string option \<times> pyfloat" where
  "get_highest_bid offer =
     (case bids offer of
        [] \<Rightarrow> (None, amt 0)
      | b # bs \<Rightarrow> (case max_by_key snd b bs of (m, a) \<Rightarrow> (Some m, a)))"

subsection \<open>InventoryManager\<close>

record InventoryManager =
  inventory :: "string \<rightharpoonup> Item"
  offers :: "string \<rightharpoonup> Offer"
  next_offer_id :: int

definition initial_items :: "Item list" where
  "initial_items =
     [\<lparr>item_id = ''TS-A'', name = ''T-Shirt style A'', category = ''Clothing'',
       stock = 50, unit_price = 20, last_restock_date = (2025, 9, 1),
       reorder_threshold = 10\<rparr>,
      \<lparr>item_id = ''TS-B'', name = ''T-Shirt style B'', category = ''Clothing'',
       stock = 20, unit_price = 25, last_restock_date = (2025, 9, 15),
       reorder_threshold = 5\<rparr>,
      \<lparr>item_id = ''SH-C'', name = ''Men's shorts - Cargo'', category = ''Clothing'',
       stock = 65, unit_price = 25, last_restock_date = (2025, 9, 15),
       reorder_threshold = 5\<rparr>]"

definition init_manager :: InventoryManager where
  "init_manager =
     \<lparr>inventory = foldl (\<lambda>items it. items(item_id it \<mapsto> it)) Map.empty initial_items,
      offers = Map.empty, next_offer_id = 1\<rparr>"

text \<open>\<open>str(n)\<close> of a Python integer, as the f-string of the offer identifier
  renders it.\<close>

definition digit_char :: "nat \<Rightarrow> char" where
  "digit_char d = char_of (48 + d)"

function str_nat :: "nat \<Rightarrow> string" where
  "str_nat n = (if n < 10 then [digit_char n]
                else str_nat (n div 10) @ [digit_char (n mod 10)])"
  by pat_completeness auto
termination
  by (relation "measure (\<lambda>n. n)") auto

definition str_int :: "int \<Rightarrow> string" where
  "str_int i = (if i < 0 then CHR ''-'' # str_nat (nat (- i)) else str_nat (nat i))"

definition update_stock :: "InventoryManager \<Rightarrow> string \<Rightarrow> int \<Rightarrow> InventoryManager" where
  "update_stock m iid adjustment_amount =
     (case inventory m iid of
        None \<Rightarrow> m
      | Some it \<Rightarrow>
          (case adjust_stock it adjustment_amount of
             Inl e \<Rightarrow> m
           | Inr it' \<Rightarrow> m\<lparr>inventory := (inventory m)(iid \<mapsto> it')\<rparr>))"

definition create_new_offer ::
  "InventoryManager \<Rightarrow> string \<Rightarrow> int \<Rightarrow> int \<Rightarrow> InventoryManager \<times> string option" where
  "create_new_offer m iid q e =
     (case inventory m iid of
        None \<Rightarrow> (m, None)
      | Some it \<Rightarrow>
          (case adjust_stock it (- q) of
             Inl err \<Rightarrow> (m, None)
           | Inr it' \<Rightarrow>
               (let oid = ''OFFER-'' @ str_int (next_offer_id m)
                in (m\<lparr>inventory := (inventory m)(iid \<mapsto> it'),
                       offers := (offers m)(oid \<mapsto> new_Offer oid iid q e),
                       next_offer_id := next_offer_id m + 1\<rparr>, Some oid))))"

definition track_bid ::
  "InventoryManager \<Rightarrow> string \<Rightarrow> string \<Rightarrow> pyfloat \<Rightarrow> int \<Rightarrow> InventoryManager" where
  "track_bid m oid merchant_id amount now =
     (case offers m oid of
        None \<Rightarrow> m
      | Some offer \<Rightarrow>
          m\<lparr>offers := (offers m)(oid \<mapsto> fst (add_bid offer merchant_id amount now))\<rparr>)"

text \<open>The branch \<open>complete_bid\<close> took, named after what it logs.\<close>

datatype outcome =
    OfferNotFound
  | AlreadyFinalized
  | StillOpen
  | Won string pyfloat
  | NoBids

text \<open>\<open>if winner_id:\<close> tests the truth value of a string or \<open>None\<close>.\<close>

fun truthy :: "string option \<Rightarrow> bool" where
  "truthy None = False"
| "truthy (Some s) = (s \<noteq> [])"

definition return_stock :: "(string \<rightharpoonup> Item) \<Rightarrow> Offer \<Rightarrow> (string \<rightharpoonup> Item)" where
  "return_stock items offer =
     (case items (offer_item_id offer) of
        None \<Rightarrow> items
      | Some it \<Rightarrow>
          (case adjust_stock it (quantity offer) of
             Inl e \<Rightarrow> items
           | Inr it' \<Rightarrow> items(offer_item_id offer \<mapsto> it')))"

text \<open>The \<open>else\<close> branch of \<open>complete_bid\<close>: the earmarked stock goes back
  (\<open>return_stock\<close>) and the offer is completed without a winner.\<close>

definition complete_no_winner ::
  "InventoryManager \<Rightarrow> string \<Rightarrow> Offer \<Rightarrow> InventoryManager \<times> outcome" where
  "complete_no_winner m oid offer =
     (m\<lparr>inventory := return_stock (inventory m) offer,
        offers := (offers m)(oid \<mapsto> offer\<lparr>status := Completed\<rparr>)\<rparr>, NoBids)"

definition complete_bid ::
  "InventoryManager \<Rightarrow> string \<Rightarrow> int \<Rightarrow> InventoryManager \<times> outcome" where
  "complete_bid m oid now =
     (case offers m oid of
        None \<Rightarrow> (m, OfferNotFound)
      | Some offer \<Rightarrow>
          if status offer \<noteq> Active then (m, AlreadyFinalized)
          else if now \<le> end_time offer then (m, StillOpen)
          else
            (case get_highest_bid offer of
               (None, winning) \<Rightarrow> complete_no_winner m oid offer
             | (Some w, winning) \<Rightarrow>
                 if truthy (Some w) then
                   (m\<lparr>offers := (offers m)(oid \<mapsto>
                        offer\<lparr>status := Completed, winner := Some w,
                              winning_bid := winning\<rparr>)\<rparr>,
                    Won w winning)
                 else complete_no_winner m oid offer))"

definition process_one_off_order ::
  "InventoryManager \<Rightarrow> string \<Rightarrow> int \<Rightarrow> InventoryManager \<times> rat option" where
  "process_one_off_order m iid q =
     (case inventory m iid of
        None \<Rightarrow> (m, None)
      | Some it \<Rightarrow>
          (case adjust_stock it (- q) of
             Inl e \<Rightarrow> (m, None)
           | Inr it' \<Rightarrow>
               (m\<lparr>inventory := (inventory m)(iid \<mapsto> it')\<rparr>,
                Some (unit_price it' * of_int q))))"

subsection \<open>Sequences of calls\<close>

datatype call =
    UpdateStock string int
  | CreateNewOffer string int int
  | TrackBid string string pyfloat int
  | CompleteBid string int
  | ProcessOneOffOrder string int

fun step :: "InventoryManager \<Rightarrow> call \<Rightarrow> InventoryManager" where
  "step m (UpdateStock iid d) = update_stock m iid d"
| "step m (CreateNewOffer iid q e) = fst (create_new_offer m iid q e)"
| "step m (TrackBid oid mid a now) = track_bid m oid mid a now"
| "step m (CompleteBid oid now) = fst (complete_bid m oid now)"
| "step m (ProcessOneOffOrder iid q) = fst (process_one_off_order m iid q)"

inductive reachable :: "InventoryManager \<Rightarrow> bool" where
  reachable_init: "reachable init_manager"
| reachable_step: "reachable m \<Longrightarrow> reachable (step m c)"

subsection \<open>Invariants of the reachable states\<close>

definition stock_nonneg :: "InventoryManager \<Rightarrow> bool" where
  "stock_nonneg m = (\<forall>iid it. inventory m iid = Some it \<longrightarrow> 0 \<le> stock it)"

definition offer_keys_ok :: "InventoryManager \<Rightarrow> bool" where
  "offer_keys_ok m =
     (1 \<le> next_offer_id m \<and>
      (\<forall>oid offer. offers m oid = Some offer \<longrightarrow>
         (\<exists>k. 1 \<le> k \<and> k < next_offer_id m \<and> oid = ''OFFER-'' @ str_int k)))"

section \<open>Properties\<close>

subsection \<open>Rendering of the offer counter\<close>

declare str_nat.simps [simp del]

lemma str_nat_nonempty: "str_nat n \<noteq> []" "[] \<noteq> str_nat n"
  by (subst str_nat.simps, simp)+

lemma digit_char_inj: "a < 10 \<Longrightarrow> b < 10 \<Longrightarrow> digit_char a = digit_char b \<Longrightarrow> a = b"
proof -
  assume a: "a < 10" and b: "b < 10" and e: "digit_char a = digit_char b"
  from e have "(of_char (char_of (48 + a)) :: nat) = of_char (char_of (48 + b))"
    by (simp add: digit_char_def)
  with a b show "a = b" by simp
qed

lemma str_nat_inj: "str_nat a = str_nat b \<Longrightarrow> a = b"
proof (induction a arbitrary: b rule: str_nat.induct)
  case (1 n)
  show ?case
  proof (cases "n < 10")
    case small: True
    show ?thesis
    proof (cases "b < 10")
      case True
      with small "1.prems" show ?thesis
        by (simp add: str_nat.simps [of n] str_nat.simps [of b] digit_char_inj)
    next
      case False
      with small "1.prems" show ?thesis
        by (simp add: str_nat.simps [of n] str_nat.simps [of b] str_nat_nonempty)
    qed
  next
    case big: False
    show ?thesis
    proof (cases "b < 10")
      case True
      with big "1.prems" show ?thesis
        by (simp add: str_nat.simps [of n] str_nat.simps [of b] str_nat_nonempty)
    next
      case False
      with big "1.prems" have t: "str_nat (n div 10) = str_nat (b div 10)"
        and d: "digit_char (n mod 10) = digit_char (b mod 10)"
        by (simp_all add: str_nat.simps [of n] str_nat.simps [of b])
      from "1.IH" [OF big t] have "n div 10 = b div 10" .
      moreover from d have "n mod 10 = b mod 10"
        by (intro digit_char_inj) simp_all
      ultimately show ?thesis
        by (metis div_mult_mod_eq)
    qed
  qed
qed

lemma offer_key_inj:
  "0 \<le> j \<Longrightarrow> 0 \<le> k \<Longrightarrow> ''OFFER-'' @ str_int j = ''OFFER-'' @ str_int k \<Longrightarrow> j = k"
  using str_nat_inj [of "nat j" "nat k"] by (simp add: str_int_def)


subsection \<open>Stock never goes negative\<close>

lemma adjust_stock_Inr: "adjust_stock it d = Inr it' \<Longrightarrow> it' = it\<lparr>stock := stock it + d\<rparr> \<and> 0 \<le> stock it + d"
  by (simp add: adjust_stock_def split: if_splits)

lemma return_stock_cases:
  "return_stock items offer = items \<or>
   (\<exists>it. items (offer_item_id offer) = Some it \<and> 0 \<le> stock it + quantity offer \<and>
      return_stock items offer = items(offer_item_id offer \<mapsto> it\<lparr>stock := stock it + quantity offer\<rparr>))"
  by (auto simp: return_stock_def dest: adjust_stock_Inr split: option.splits sum.splits)

lemma inventory_step_cases:
  "inventory (step m c) = inventory m \<or>
   (\<exists>iid it d. inventory m iid = Some it \<and> 0 \<le> stock it + d \<and>
      inventory (step m c) = (inventory m)(iid \<mapsto> it\<lparr>stock := stock it + d\<rparr>))"
proof (cases c)
  case (UpdateStock iid d)
  then show ?thesis
    by (auto simp: update_stock_def dest: adjust_stock_Inr split: option.splits sum.splits)
next
  case (CreateNewOffer iid q e)
  then show ?thesis
    by (auto simp: create_new_offer_def Let_def dest: adjust_stock_Inr split: option.splits sum.splits)
next
  case (TrackBid oid mid a now)
  then show ?thesis
    by (simp add: track_bid_def split: option.splits)
next
  case (CompleteBid oid now)
  show ?thesis
  proof (cases "inventory (step m c) = inventory m")
    case True
    then show ?thesis by simp
  next
    case False
    then obtain offer where "inventory (step m c) = return_stock (inventory m) offer"
      using CompleteBid
      by (auto simp: complete_bid_def complete_no_winner_def split: option.splits if_splits prod.splits)
    then show ?thesis
      using return_stock_cases [of "inventory m" offer] by auto
  qed
next
  case (ProcessOneOffOrder iid q)
  then show ?thesis
    by (auto simp: process_one_off_order_def dest: adjust_stock_Inr split: option.splits sum.splits)
qed

lemma stock_nonneg_step: "stock_nonneg m \<Longrightarrow> stock_nonneg (step m c)"
  using inventory_step_cases [of m c]
  by (auto simp: stock_nonneg_def split: if_splits)

lemma inventory_dom_step: "inventory (step m c) iid = None \<longleftrightarrow> inventory m iid = None"
  using inventory_step_cases [of m c] by (auto split: if_splits)

lemma inventory_init:
  "inventory init_manager =
     [''TS-A'' \<mapsto> initial_items ! 0, ''TS-B'' \<mapsto> initial_items ! 1, ''SH-C'' \<mapsto> initial_items ! 2]"
  by (simp add: init_manager_def initial_items_def)

lemma stock_nonneg_init: "stock_nonneg init_manager"
  by (auto simp: stock_nonneg_def inventory_init initial_items_def split: if_splits)

lemma reachable_stock_nonneg: "reachable m \<Longrightarrow> stock_nonneg m"
  by (induction rule: reachable.induct) (simp_all add: stock_nonneg_init stock_nonneg_step)

lemma reachable_foldl: "reachable m \<Longrightarrow> reachable (foldl step m cs)"
  by (induction cs arbitrary: m) (simp_all add: reachable_step)

text \<open>
  C4. \<open>adjust_stock\<close> fails, leaving the item as it was, when the stock plus the delta
  is negative (\<open>update_stock\<close> then returns the manager unchanged), and otherwise sets
  the stock to the sum; on a non-negative stock a zero delta succeeds and changes
  nothing. Consequently, after any sequence of calls on the manager started from the
  seed items (every change of a stock goes through \<open>adjust_stock\<close>), no stock is
  negative.
\<close>

theorem adjust_stock_never_negative:
  "(stock it + delta < 0 \<longrightarrow> adjust_stock it delta = Inl ValueError) \<and>
   (0 \<le> stock it + delta \<longrightarrow>
      adjust_stock it delta = Inr (it\<lparr>stock := stock it + delta\<rparr>)) \<and>
   (0 \<le> stock it \<longrightarrow> adjust_stock it 0 = Inr it) \<and>
   (inventory m iid = Some it \<and> stock it + delta < 0 \<longrightarrow> update_stock m iid delta = m) \<and>
   (inventory (foldl step init_manager cs) iid = Some it' \<longrightarrow> 0 \<le> stock it')"
proof -
  have "stock_nonneg (foldl step init_manager cs)"
    by (simp add: reachable_stock_nonneg reachable_foldl reachable_init)
  then show ?thesis
    by (simp add: adjust_stock_def update_stock_def stock_nonneg_def)
qed

theorem adjust_stock_never_negative_witness:
  "adjust_stock (initial_items ! 0) (- 1000) = Inl ValueError \<and>
   adjust_stock (initial_items ! 0) (- 5) = Inr ((initial_items ! 0)\<lparr>stock := 45\<rparr>) \<and>
   adjust_stock (initial_items ! 0) 0 = Inr (initial_items ! 0) \<and>
   update_stock init_manager ''TS-A'' (- 1000) = init_manager \<and>
   inventory (foldl step init_manager [UpdateStock ''TS-A'' (- 5), UpdateStock ''TS-A'' (- 1000)])
     ''TS-A'' = Some ((initial_items ! 0)\<lparr>stock := 45\<rparr>) \<and>
   0 \<le> stock ((initial_items ! 0)\<lparr>stock := 45\<rparr>)"
proof -
  let ?it = "initial_items ! 0"
  have s: "stock ?it = 50" by (simp add: initial_items_def)
  have i: "inventory init_manager ''TS-A'' = Some ?it" by (simp add: inventory_init)
  have r: "inventory (foldl step init_manager
      [UpdateStock ''TS-A'' (- 5), UpdateStock ''TS-A'' (- 1000)]) ''TS-A'' =
      Some (?it\<lparr>stock := 45\<rparr>)"
    by (simp add: update_stock_def adjust_stock_def i s)
  show ?thesis
    using adjust_stock_never_negative [of ?it "- 1000" init_manager "''TS-A''"
        "[UpdateStock ''TS-A'' (- 5), UpdateStock ''TS-A'' (- 1000)]" "?it\<lparr>stock := 45\<rparr>"]
      adjust_stock_never_negative [of ?it "- 5"] adjust_stock_never_negative [of ?it 0] s i r
    by simp
qed

subsection \<open>Offer identifiers\<close>

lemma create_new_offer_cases:
  "create_new_offer m iid q e = (m, None) \<and>
     (inventory m iid = None \<or> (\<exists>it. inventory m iid = Some it \<and> stock it - q < 0)) \<or>
   (\<exists>it. inventory m iid = Some it \<and> 0 \<le> stock it - q \<and>
      create_new_offer m iid q e =
        (m\<lparr>inventory := (inventory m)(iid \<mapsto> it\<lparr>stock := stock it - q\<rparr>),
           offers := (offers m)(''OFFER-'' @ str_int (next_offer_id m) \<mapsto>
             new_Offer (''OFFER-'' @ str_int (next_offer_id m)) iid q e),
           next_offer_id := next_offer_id m + 1\<rparr>,
         Some (''OFFER-'' @ str_int (next_offer_id m))))"
  by (cases "inventory m iid") (auto simp: create_new_offer_def adjust_stock_def Let_def)

lemma offer_keys_ok_create:
  assumes "offer_keys_ok m"
  shows "offer_keys_ok (fst (create_new_offer m iid q e))"
  using create_new_offer_cases [of m iid q e]
proof (elim disjE conjE exE)
  assume "create_new_offer m iid q e = (m, None)"
  with assms show ?thesis by simp
next
  fix it
  let ?new = "''OFFER-'' @ str_int (next_offer_id m)"
  assume c: "create_new_offer m iid q e =
        (m\<lparr>inventory := (inventory m)(iid \<mapsto> it\<lparr>stock := stock it - q\<rparr>),
           offers := (offers m)(?new \<mapsto> new_Offer ?new iid q e),
           next_offer_id := next_offer_id m + 1\<rparr>, Some ?new)"
  from assms have n: "1 \<le> next_offer_id m"
    and k: "\<And>oid offer. offers m oid = Some offer \<Longrightarrow>
      \<exists>k. 1 \<le> k \<and> k < next_offer_id m \<and> oid = ''OFFER-'' @ str_int k"
    by (auto simp: offer_keys_ok_def)
  have "\<exists>k. 1 \<le> k \<and> k < next_offer_id m + 1 \<and> oid = ''OFFER-'' @ str_int k"
    if "((offers m)(?new \<mapsto> new_Offer ?new iid q e)) oid = Some offer" for oid offer
  proof (cases "oid = ?new")
    case True
    with n show ?thesis by (intro exI [of _ "next_offer_id m"]) simp
  next
    case False
    with that have "offers m oid = Some offer" by simp
    from k [OF this] obtain j where "1 \<le> j" "j < next_offer_id m" "oid = ''OFFER-'' @ str_int j"
      by blast
    then show ?thesis by (intro exI [of _ j]) simp
  qed
  with n show ?thesis
    unfolding c offer_keys_ok_def by simp
qed (use assms in simp_all)


lemma offer_keys_ok_upd:
  assumes "offer_keys_ok m" and "offers m oid = Some offer"
  shows "offer_keys_ok (m\<lparr>offers := (offers m)(oid \<mapsto> offer')\<rparr>)"
    and "offer_keys_ok (m\<lparr>inventory := items, offers := (offers m)(oid \<mapsto> offer')\<rparr>)"
  using assms unfolding offer_keys_ok_def by (auto split: if_splits)


lemma offer_keys_ok_inventory [simp]:
  "offer_keys_ok (m\<lparr>inventory := items\<rparr>) = offer_keys_ok m"
  by (simp add: offer_keys_ok_def)

lemma offer_keys_ok_complete:
  assumes "offer_keys_ok m"
  shows "offer_keys_ok (fst (complete_bid m oid now))"
proof (cases "offers m oid")
  case None
  with assms show ?thesis by (simp add: complete_bid_def)
next
  case (Some offer)
  show ?thesis
  proof (cases "get_highest_bid offer")
    case (Pair w a)
    with Some assms offer_keys_ok_upd [OF assms Some] show ?thesis
      by (cases w) (simp_all add: complete_bid_def complete_no_winner_def)
  qed
qed

lemma offer_keys_ok_step: "offer_keys_ok m \<Longrightarrow> offer_keys_ok (step m c)"
proof (cases c)
  case (UpdateStock iid d)
  assume "offer_keys_ok m"
  with UpdateStock show ?thesis
    by (simp add: update_stock_def split: option.splits sum.splits)
next
  case (CreateNewOffer iid q e)
  assume "offer_keys_ok m"
  with CreateNewOffer show ?thesis by (simp add: offer_keys_ok_create)
next
  case (TrackBid oid mid a now)
  assume "offer_keys_ok m"
  with TrackBid show ?thesis
    by (simp add: track_bid_def offer_keys_ok_upd split: option.splits)
next
  case (CompleteBid oid now)
  assume "offer_keys_ok m"
  with CompleteBid show ?thesis by (simp add: offer_keys_ok_complete)
next
  case (ProcessOneOffOrder iid q)
  assume "offer_keys_ok m"
  with ProcessOneOffOrder show ?thesis
    by (simp add: process_one_off_order_def split: option.splits sum.splits)
qed

lemma offer_keys_ok_init: "offer_keys_ok init_manager"
  by (simp add: offer_keys_ok_def init_manager_def)

lemma reachable_offer_keys_ok: "reachable m \<Longrightarrow> offer_keys_ok m"
  by (induction rule: reachable.induct) (simp_all add: offer_keys_ok_init offer_keys_ok_step)

lemma reachable_fresh_key:
  assumes "reachable m"
  shows "offers m (''OFFER-'' @ str_int (next_offer_id m)) = None"
proof (rule ccontr)
  assume "offers m (''OFFER-'' @ str_int (next_offer_id m)) \<noteq> None"
  then obtain offer where "offers m (''OFFER-'' @ str_int (next_offer_id m)) = Some offer"
    by blast
  with reachable_offer_keys_ok [OF assms] obtain k where
    k: "1 \<le> k" "k < next_offer_id m"
      "''OFFER-'' @ str_int (next_offer_id m) = ''OFFER-'' @ str_int k"
    unfolding offer_keys_ok_def by blast
  from k(1,2) offer_key_inj [OF _ _ k(3)] show False by simp
qed

lemma str_int_1: "str_int 1 = ''1''"
  by code_simp






subsection \<open>Bids\<close>

lemma map_of_dict_set: "map_of (dict_set kvs k v) = (map_of kvs)(k \<mapsto> v)"
  by (induction kvs k v rule: dict_set.induct) auto

lemma add_bid_fields:
  "offer_item_id (fst (add_bid offer mid a now)) = offer_item_id offer"
  "status (fst (add_bid offer mid a now)) = status offer"
  "quantity (fst (add_bid offer mid a now)) = quantity offer"
  "end_time (fst (add_bid offer mid a now)) = end_time offer"
  by (simp_all add: add_bid_def)

text \<open>
  C5. A bid submitted strictly after the end time of the offer is rejected, whatever the
  amount and whatever the status of the offer (finalized or not), and the offer, hence
  its bids, stays as it was; through \<open>track_bid\<close> the manager stays as it was.
\<close>

theorem add_bid_after_end_time:
  assumes "end_time offer < now"
  shows "add_bid offer merchant_id amount now = (offer, False) \<and>
         (offers m oid = Some offer \<longrightarrow> track_bid m oid merchant_id amount now = m)"
  using assms by (simp add: add_bid_def track_bid_def map_upd_triv)

theorem add_bid_after_end_time_witness:
  "end_time (new_Offer ''OFFER-1'' ''TS-A'' 20 100) < 101 \<and>
   add_bid (new_Offer ''OFFER-1'' ''TS-A'' 20 100) ''Merchant-Gamma'' (amt 520) 101 =
     (new_Offer ''OFFER-1'' ''TS-A'' 20 100, False) \<and>
   offers (init_manager\<lparr>offers := [''OFFER-1'' \<mapsto> new_Offer ''OFFER-1'' ''TS-A'' 20 100]\<rparr>)
     ''OFFER-1'' = Some (new_Offer ''OFFER-1'' ''TS-A'' 20 100) \<and>
   track_bid (init_manager\<lparr>offers := [''OFFER-1'' \<mapsto> new_Offer ''OFFER-1'' ''TS-A'' 20 100]\<rparr>)
     ''OFFER-1'' ''Merchant-Gamma'' (amt 520) 101 =
     init_manager\<lparr>offers := [''OFFER-1'' \<mapsto> new_Offer ''OFFER-1'' ''TS-A'' 20 100]\<rparr>"
proof -
  have e: "end_time (new_Offer ''OFFER-1'' ''TS-A'' 20 100) < 101"
    by (simp add: new_Offer_def)
  show ?thesis
    using e add_bid_after_end_time [OF e, of "''Merchant-Gamma''" "amt 520"
        "init_manager\<lparr>offers := [''OFFER-1'' \<mapsto> new_Offer ''OFFER-1'' ''TS-A'' 20 100]\<rparr>"
        "''OFFER-1''"]
    by simp
qed

lemma less_xrat_simps [simp]:
  "(Fin x < Fin y) = (x < y)" "(MInf < Fin y) = True" "(Fin x < PInf) = True"
  "(MInf < PInf) = True"
  by (auto simp: less_xrat_def)

lemma less_xrat_inf [simp]: "(x < MInf) = False" "(PInf < x) = False"
  by (cases x; simp add: less_xrat_def)+

lemma float_ge_gt: "a \<noteq> NaN \<Longrightarrow> b \<noteq> NaN \<Longrightarrow> float_ge a b = (\<not> float_gt b a)"
  by (cases a; cases b) auto

lemma map_fst_dict_set:
  "map_of kvs k = Some v' \<Longrightarrow> map fst (dict_set kvs k v) = map fst kvs"
  by (induction kvs k v rule: dict_set.induct) (auto split: if_splits)

text \<open>
  C7, as stated, fails at NaN: \<open>bids[merchant_id] >= amount\<close> is false when either
  side is NaN, so a NaN amount replaces a recorded 450 although it is not greater, and a
  recorded NaN is replaced by any number.
\<close>

theorem add_bid_nan_counterexample:
  "status ((new_Offer ''OFFER-1'' ''TS-A'' 20 100)\<lparr>bids := [(''Merchant-Alpha'', amt 450)]\<rparr>)
     = Active \<and>
   50 \<le> end_time ((new_Offer ''OFFER-1'' ''TS-A'' 20 100)\<lparr>bids := [(''Merchant-Alpha'', amt 450)]\<rparr>) \<and>
   map_of (bids ((new_Offer ''OFFER-1'' ''TS-A'' 20 100)\<lparr>bids := [(''Merchant-Alpha'', amt 450)]\<rparr>))
     ''Merchant-Alpha'' = Some (amt 450) \<and>
   \<not> float_gt NaN (amt 450) \<and>
   add_bid ((new_Offer ''OFFER-1'' ''TS-A'' 20 100)\<lparr>bids := [(''Merchant-Alpha'', amt 450)]\<rparr>)
     ''Merchant-Alpha'' NaN 50 =
     ((new_Offer ''OFFER-1'' ''TS-A'' 20 100)\<lparr>bids := [(''Merchant-Alpha'', NaN)]\<rparr>, True) \<and>
   \<not> float_gt (amt 1) NaN \<and>
   add_bid ((new_Offer ''OFFER-1'' ''TS-A'' 20 100)\<lparr>bids := [(''Merchant-Alpha'', NaN)]\<rparr>)
     ''Merchant-Alpha'' (amt 1) 50 =
     ((new_Offer ''OFFER-1'' ''TS-A'' 20 100)\<lparr>bids := [(''Merchant-Alpha'', amt 1)]\<rparr>, True)"
  by (simp add: add_bid_def new_Offer_def)

text \<open>
  C7, amended. For an active offer within its time window and a merchant with a recorded
  bid, where the recorded and the new amount are numbers (not NaN): the bid is accepted
  exactly when the new amount is strictly greater. Then the offer returned differs only
  in its bids, where the entry of that merchant holds the new amount, every other
  merchant's entry is as before and the order of the entries is kept. An equal or lower
  amount returns a rejection and leaves the offer as it was.
\<close>

theorem add_bid_replace_iff_greater:
  assumes "status offer = Active" and "now \<le> end_time offer"
    and "map_of (bids offer) merchant_id = Some previous"
    and "previous \<noteq> NaN" and "amount \<noteq> NaN"
  shows "(float_gt amount previous \<longrightarrow>
            add_bid offer merchant_id amount now =
              (offer\<lparr>bids := dict_set (bids offer) merchant_id amount\<rparr>, True) \<and>
            map_of (dict_set (bids offer) merchant_id amount) =
              (map_of (bids offer))(merchant_id \<mapsto> amount) \<and>
            map fst (dict_set (bids offer) merchant_id amount) = map fst (bids offer)) \<and>
         (\<not> float_gt amount previous \<longrightarrow>
            add_bid offer merchant_id amount now = (offer, False))"
  using assms
  by (simp add: add_bid_def float_ge_gt map_of_dict_set map_fst_dict_set)

theorem add_bid_replace_iff_greater_witness:
  "add_bid ((new_Offer ''OFFER-1'' ''TS-A'' 20 100)\<lparr>bids :=
       [(''Merchant-Alpha'', amt 450), (''Merchant-Beta'', amt 500)]\<rparr>)
     ''Merchant-Alpha'' (amt 450) 50 =
     ((new_Offer ''OFFER-1'' ''TS-A'' 20 100)\<lparr>bids :=
       [(''Merchant-Alpha'', amt 450), (''Merchant-Beta'', amt 500)]\<rparr>, False) \<and>
   add_bid ((new_Offer ''OFFER-1'' ''TS-A'' 20 100)\<lparr>bids :=
       [(''Merchant-Alpha'', amt 450), (''Merchant-Beta'', amt 500)]\<rparr>)
     ''Merchant-Alpha'' (amt 510) 50 =
     ((new_Offer ''OFFER-1'' ''TS-A'' 20 100)\<lparr>bids :=
       [(''Merchant-Alpha'', amt 510), (''Merchant-Beta'', amt 500)]\<rparr>, True)"
proof -
  let ?o = "(new_Offer ''OFFER-1'' ''TS-A'' 20 100)\<lparr>bids :=
       [(''Merchant-Alpha'', amt 450), (''Merchant-Beta'', amt 500)]\<rparr>"
  have a: "status ?o = Active" and t: "50 \<le> end_time ?o"
    and b: "map_of (bids ?o) ''Merchant-Alpha'' = Some (amt 450)"
    by (simp_all add: new_Offer_def)
  have n: "amt 450 \<noteq> NaN" "amt 510 \<noteq> NaN" by simp_all
  have g: "float_gt (amt 510) (amt 450)" and h: "\<not> float_gt (amt 450) (amt 450)"
    by simp_all
  have 1: "add_bid ?o ''Merchant-Alpha'' (amt 450) 50 = (?o, False)"
    by (rule add_bid_replace_iff_greater
        [OF a t b n(1) n(1), THEN conjunct2, THEN mp, OF h])
  have 2: "add_bid ?o ''Merchant-Alpha'' (amt 510) 50 =
      (?o\<lparr>bids := dict_set (bids ?o) ''Merchant-Alpha'' (amt 510)\<rparr>, True)"
    by (rule add_bid_replace_iff_greater
        [OF a t b n(1) n(2), THEN conjunct1, THEN mp, OF g, THEN conjunct1])
  have 3: "dict_set (bids ?o) ''Merchant-Alpha'' (amt 510) =
      [(''Merchant-Alpha'', amt 510), (''Merchant-Beta'', amt 500)]"
    by simp
  show ?thesis
    unfolding 1 2 3 by simp
qed

subsection \<open>Completing an offer\<close>

text \<open>
  C6. \<open>complete_bid\<close> on an offer that is not active takes the "already completed or
  cancelled" branch, and on an active offer whose end time has not passed
  (\<open>now \<le> end_time\<close>) the "still active" branch; in both the manager (offers and
  inventory) is returned as it was.
\<close>

theorem complete_bid_failures:
  assumes "offers m oid = Some offer"
  shows "(status offer \<noteq> Active \<longrightarrow> complete_bid m oid now = (m, AlreadyFinalized)) \<and>
         (status offer = Active \<and> now \<le> end_time offer \<longrightarrow>
            complete_bid m oid now = (m, StillOpen))"
  using assms by (simp add: complete_bid_def)

theorem complete_bid_failures_witness:
  "complete_bid (init_manager\<lparr>offers := [''OFFER-1'' \<mapsto> new_Offer ''OFFER-1'' ''TS-A'' 20 100]\<rparr>)
     ''OFFER-1'' 100 =
     (init_manager\<lparr>offers := [''OFFER-1'' \<mapsto> new_Offer ''OFFER-1'' ''TS-A'' 20 100]\<rparr>, StillOpen) \<and>
   complete_bid (init_manager\<lparr>offers :=
       [''OFFER-1'' \<mapsto> (new_Offer ''OFFER-1'' ''TS-A'' 20 100)\<lparr>status := Completed\<rparr>]\<rparr>)
     ''OFFER-1'' 101 =
     (init_manager\<lparr>offers :=
       [''OFFER-1'' \<mapsto> (new_Offer ''OFFER-1'' ''TS-A'' 20 100)\<lparr>status := Completed\<rparr>]\<rparr>,
      AlreadyFinalized)"
proof -
  let ?a = "new_Offer ''OFFER-1'' ''TS-A'' 20 100"
  let ?c = "?a\<lparr>status := Completed\<rparr>"
  have 1: "offers (init_manager\<lparr>offers := [''OFFER-1'' \<mapsto> ?a]\<rparr>) ''OFFER-1'' = Some ?a"
    and 2: "offers (init_manager\<lparr>offers := [''OFFER-1'' \<mapsto> ?c]\<rparr>) ''OFFER-1'' = Some ?c"
    by simp_all
  show ?thesis
    using complete_bid_failures [OF 1, of 100] complete_bid_failures [OF 2, of 101]
    by (simp add: new_Offer_def)
qed

lemma complete_bid_other:
  "oid' \<noteq> oid \<Longrightarrow> offers (fst (complete_bid m oid' now)) oid = offers m oid"
  by (auto simp: complete_bid_def complete_no_winner_def split: option.splits prod.splits)

lemma completed_step:
  assumes "reachable m" and "offers m oid = Some offer" and "status offer = Completed"
  shows "offers (step m c) oid = Some offer"
proof (cases c)
  case (UpdateStock iid d)
  with assms(2) show ?thesis
    by (simp add: update_stock_def split: option.splits sum.splits)
next
  case (CreateNewOffer iid q e)
  from reachable_fresh_key [OF assms(1)] assms(2)
  have "''OFFER-'' @ str_int (next_offer_id m) \<noteq> oid" by auto
  with CreateNewOffer assms(2) create_new_offer_cases [of m iid q e] show ?thesis
    by auto
next
  case (TrackBid oid' mid a now)
  with assms(2,3) show ?thesis
    by (cases "oid' = oid") (auto simp: track_bid_def add_bid_def split: option.splits)
next
  case (CompleteBid oid' now)
  show ?thesis
  proof (cases "oid' = oid")
    case True
    with CompleteBid assms(2,3) show ?thesis by (simp add: complete_bid_def)
  next
    case False
    with CompleteBid assms(2) show ?thesis by (simp add: complete_bid_other)
  qed
next
  case (ProcessOneOffOrder iid q)
  with assms(2) show ?thesis
    by (simp add: process_one_off_order_def split: option.splits sum.splits)
qed

lemma completed_foldl:
  "reachable m \<Longrightarrow> offers m oid = Some offer \<Longrightarrow> status offer = Completed \<Longrightarrow>
   offers (foldl step m cs) oid = Some offer"
  by (induction cs arbitrary: m) (simp_all add: completed_step reachable_step)

text \<open>
  C8. Completed is terminal. In every state reached from the initial manager, for an offer
  stored with status completed: \<open>add_bid\<close> rejects and returns the offer as it was,
  \<open>track_bid\<close> and \<open>complete_bid\<close> return the manager (offers and inventory) as
  it was, the latter on the "already completed or cancelled" branch, and after any further
  sequence of calls the same offer (bids, winner, winning bid and status) is still stored
  under its identifier. So the status of an offer changes to completed at most once and
  never changes again.
\<close>

theorem completed_is_terminal:
  assumes "reachable m" and "offers m oid = Some offer" and "status offer = Completed"
  shows "add_bid offer merchant_id amount now = (offer, False) \<and>
         track_bid m oid merchant_id amount now = m \<and>
         complete_bid m oid now = (m, AlreadyFinalized) \<and>
         offers (foldl step m cs) oid = Some offer"
  using assms completed_foldl [OF assms, of cs]
  by (simp add: add_bid_def track_bid_def complete_bid_def map_upd_triv)


theorem completed_is_terminal_witness:
  "reachable (foldl step init_manager [CreateNewOffer ''TS-A'' 20 100, CompleteBid ''OFFER-1'' 101]) \<and>
   offers (foldl step init_manager [CreateNewOffer ''TS-A'' 20 100, CompleteBid ''OFFER-1'' 101])
     ''OFFER-1'' = Some ((new_Offer ''OFFER-1'' ''TS-A'' 20 100)\<lparr>status := Completed\<rparr>) \<and>
   add_bid ((new_Offer ''OFFER-1'' ''TS-A'' 20 100)\<lparr>status := Completed\<rparr>)
     ''Merchant-Alpha'' (amt 450) 50 =
     ((new_Offer ''OFFER-1'' ''TS-A'' 20 100)\<lparr>status := Completed\<rparr>, False) \<and>
   complete_bid (foldl step init_manager [CreateNewOffer ''TS-A'' 20 100, CompleteBid ''OFFER-1'' 101])
     ''OFFER-1'' 200 =
     (foldl step init_manager [CreateNewOffer ''TS-A'' 20 100, CompleteBid ''OFFER-1'' 101],
      AlreadyFinalized) \<and>
   offers (foldl step
       (foldl step init_manager [CreateNewOffer ''TS-A'' 20 100, CompleteBid ''OFFER-1'' 101])
       [TrackBid ''OFFER-1'' ''Merchant-Alpha'' (amt 450) 50, CompleteBid ''OFFER-1'' 200,
        CreateNewOffer ''TS-A'' 5 300])
     ''OFFER-1'' = Some ((new_Offer ''OFFER-1'' ''TS-A'' 20 100)\<lparr>status := Completed\<rparr>)"
proof -
  let ?m = "foldl step init_manager [CreateNewOffer ''TS-A'' 20 100, CompleteBid ''OFFER-1'' 101]"
  let ?c = "(new_Offer ''OFFER-1'' ''TS-A'' 20 100)\<lparr>status := Completed\<rparr>"
  have r: "reachable ?m" by (rule reachable_foldl [OF reachable_init])
  have i: "inventory init_manager ''TS-A'' = Some (initial_items ! 0)"
    by (simp add: inventory_init)
  have s: "stock (initial_items ! 0) = 50" by (simp add: initial_items_def)
  have n: "next_offer_id init_manager = 1" "offers init_manager = Map.empty"
    by (simp_all add: init_manager_def)
  have c: "offers (fst (create_new_offer init_manager ''TS-A'' 20 100)) ''OFFER-1'' =
      Some (new_Offer ''OFFER-1'' ''TS-A'' 20 100)"
    by (simp add: create_new_offer_def adjust_stock_def Let_def i s n str_int_1)
  have g: "get_highest_bid (new_Offer ''OFFER-1'' ''TS-A'' 20 100) = (None, amt 0)"
    by (simp add: get_highest_bid_def new_Offer_def)
  have e: "status (new_Offer ''OFFER-1'' ''TS-A'' 20 100) = Active"
    "end_time (new_Offer ''OFFER-1'' ''TS-A'' 20 100) = 100"
    by (simp_all add: new_Offer_def)
  have o: "offers ?m ''OFFER-1'' = Some ?c"
    by (simp add: complete_bid_def complete_no_winner_def c g e)
  have t: "status ?c = Completed" by simp
  show ?thesis
    using r o
      completed_is_terminal [OF r o t, of "''Merchant-Alpha''" "amt 450" 50
        "[TrackBid ''OFFER-1'' ''Merchant-Alpha'' (amt 450) 50, CompleteBid ''OFFER-1'' 200,
          CreateNewOffer ''TS-A'' 5 300]"]
      completed_is_terminal [OF r o t, of "''Merchant-Alpha''" "amt 450" 200 "[]"]
    by blast
qed

subsection \<open>Bid amounts are not validated\<close>

lemma dict_set_absent: "map_of kvs k = None \<Longrightarrow> dict_set kvs k v = kvs @ [(k, v)]"
  by (induction kvs) (auto split: if_splits)

text \<open>
  C9. No operation checks a bid amount. On an active offer within its time window, a
  merchant without a recorded bid has the bid accepted and appended to the bids for every
  amount, zero and negative ones included. If it is the only bid of the offer (and the
  merchant identifier is not the empty string), \<open>complete_bid\<close> after the end time
  records that merchant as winner and that amount as winning bid.
\<close>

theorem add_bid_unvalidated_amount:
  assumes "status offer = Active" and "now \<le> end_time offer"
    and "map_of (bids offer) merchant_id = None"
  shows "add_bid offer merchant_id amount now =
           (offer\<lparr>bids := bids offer @ [(merchant_id, amount)]\<rparr>, True) \<and>
         (offers m oid = Some offer \<and> bids offer = [] \<and> merchant_id \<noteq> [] \<and>
          end_time offer < later \<longrightarrow>
            complete_bid (track_bid m oid merchant_id amount now) oid later =
              (m\<lparr>offers := (offers m)(oid \<mapsto>
                   offer\<lparr>bids := [(merchant_id, amount)], status := Completed,
                         winner := Some merchant_id, winning_bid := amount\<rparr>)\<rparr>,
               Won merchant_id amount))"
  using assms
  by (simp add: add_bid_def dict_set_absent track_bid_def complete_bid_def get_highest_bid_def)

theorem add_bid_unvalidated_amount_witness:
  "add_bid (new_Offer ''OFFER-1'' ''TS-A'' 20 100) ''Merchant-Alpha'' (amt (- 5)) 50 =
     ((new_Offer ''OFFER-1'' ''TS-A'' 20 100)\<lparr>bids := [(''Merchant-Alpha'', amt (- 5))]\<rparr>, True) \<and>
   add_bid (new_Offer ''OFFER-1'' ''TS-A'' 20 100) ''Merchant-Alpha'' (amt 0) 50 =
     ((new_Offer ''OFFER-1'' ''TS-A'' 20 100)\<lparr>bids := [(''Merchant-Alpha'', amt 0)]\<rparr>, True) \<and>
   snd (complete_bid
     (track_bid (init_manager\<lparr>offers := [''OFFER-1'' \<mapsto> new_Offer ''OFFER-1'' ''TS-A'' 20 100]\<rparr>)
        ''OFFER-1'' ''Merchant-Alpha'' (amt (- 5)) 50) ''OFFER-1'' 101) =
     Won ''Merchant-Alpha'' (amt (- 5)) \<and>
   snd (complete_bid
     (track_bid (init_manager\<lparr>offers := [''OFFER-1'' \<mapsto> new_Offer ''OFFER-1'' ''TS-A'' 20 100]\<rparr>)
        ''OFFER-1'' ''Merchant-Alpha'' (amt 0) 50) ''OFFER-1'' 101) =
     Won ''Merchant-Alpha'' (amt 0)"
proof -
  let ?a = "new_Offer ''OFFER-1'' ''TS-A'' 20 100"
  let ?m = "init_manager\<lparr>offers := [''OFFER-1'' \<mapsto> ?a]\<rparr>"
  have s: "status ?a = Active" and t: "50 \<le> end_time ?a"
    and b: "map_of (bids ?a) ''Merchant-Alpha'' = None"
    by (simp_all add: new_Offer_def)
  have o: "offers ?m ''OFFER-1'' = Some ?a" by simp
  have e: "bids ?a = []" "end_time ?a < 101" by (simp_all add: new_Offer_def)
  show ?thesis
    using add_bid_unvalidated_amount [OF s t b, of "amt (- 5)" ?m "''OFFER-1''" 101]
      add_bid_unvalidated_amount [OF s t b, of "amt 0" ?m "''OFFER-1''" 101] o e
    by simp
qed

subsection \<open>The winner of an offer\<close>

lemma float_ge_not_gt: "float_ge a b \<Longrightarrow> \<not> float_gt b a"
  by (cases a; cases b) auto

lemma float_gt_ge_trans: "float_gt a b \<Longrightarrow> float_ge b c \<Longrightarrow> float_gt a c"
  by (cases a; cases b; cases c) auto

lemma float_ge_trans: "float_ge a b \<Longrightarrow> float_ge b c \<Longrightarrow> float_ge a c"
  by (cases a; cases b; cases c) auto

lemma float_gt_imp_ge: "float_gt a b \<Longrightarrow> float_ge a b"
  by (cases a; cases b) auto

lemma float_total: "a \<noteq> NaN \<Longrightarrow> b \<noteq> NaN \<Longrightarrow> float_ge a b \<or> float_gt b a"
  by (cases a; cases b) auto

lemma float_ge_refl: "a \<noteq> NaN \<Longrightarrow> float_ge a a"
  by (cases a) auto

lemma max_by_key_keep:
  "\<forall>e\<in>set xs. float_ge (key best) (key e) \<Longrightarrow> max_by_key key best xs = best"
  by (induction xs) (simp_all add: float_ge_not_gt)

lemma max_by_key_first:
  "float_gt (key x) (key best) \<Longrightarrow> \<forall>e\<in>set pre. float_gt (key x) (key e) \<Longrightarrow>
   \<forall>e\<in>set post. float_ge (key x) (key e) \<Longrightarrow>
   max_by_key key best (pre @ x # post) = x"
  by (induction pre arbitrary: best) (simp_all add: max_by_key_keep)

lemma get_highest_bid_first_max:
  assumes "bids offer = pre @ (w, a) # post"
    and "\<forall>e\<in>set pre. float_gt a (snd e)" and "\<forall>e\<in>set post. float_ge a (snd e)"
  shows "get_highest_bid offer = (Some w, a)"
proof (cases pre)
  case Nil
  with assms show ?thesis
    by (simp add: get_highest_bid_def max_by_key_keep)
next
  case (Cons p pre')
  with assms have "max_by_key snd p (pre' @ (w, a) # post) = (w, a)"
    by (intro max_by_key_first) simp_all
  with Cons assms(1) show ?thesis
    by (simp add: get_highest_bid_def)
qed

lemma first_max_exists:
  "xs \<noteq> [] \<Longrightarrow> \<forall>e\<in>set xs. snd e \<noteq> NaN \<Longrightarrow>
   \<exists>pre w a post. xs = pre @ (w, a) # post \<and> (\<forall>e\<in>set pre. float_gt a (snd e)) \<and>
     (\<forall>e\<in>set post. float_ge a (snd e))"
proof (induction xs)
  case Nil
  then show ?case by simp
next
  case (Cons y ys)
  obtain k v where y: "y = (k, v)" by (cases y)
  from Cons.prems y have v: "v \<noteq> NaN" by simp
  show ?case
  proof (cases "ys = []")
    case True
    with y have "y # ys = [] @ (k, v) # []" by simp
    then show ?thesis by (intro exI [of _ "[]"] exI [of _ k] exI [of _ v]) simp
  next
    case False
    with Cons obtain pre w a post where d: "ys = pre @ (w, a) # post"
      and l: "\<forall>e\<in>set pre. float_gt a (snd e)" and r: "\<forall>e\<in>set post. float_ge a (snd e)"
      by auto
    from Cons.prems d have a: "a \<noteq> NaN" by simp
    show ?thesis
    proof (cases "float_ge v a")
      case True
      have "float_ge v (snd e)" if "e \<in> set ys" for e
      proof -
        from that d consider "e \<in> set pre" | "e = (w, a)" | "e \<in> set post" by auto
        then show ?thesis
        proof cases
          case 1
          with l have "float_ge a (snd e)" by (simp add: float_gt_imp_ge)
          with True show ?thesis by (rule float_ge_trans)
        next
          case 2
          with True show ?thesis by simp
        next
          case 3
          with r have "float_ge a (snd e)" by simp
          with True show ?thesis by (rule float_ge_trans)
        qed
      qed
      then have "\<forall>e\<in>set ys. float_ge v (snd e)" by blast
      with y show ?thesis
        by (intro exI [of _ "[]"] exI [of _ k] exI [of _ v] exI [of _ ys]) simp
    next
      case False
      with float_total [OF v a] have "float_gt a v" by simp
      with l r d y show ?thesis
        by (intro exI [of _ "y # pre"] exI [of _ w] exI [of _ a] exI [of _ post]) simp
    qed
  qed
qed

text \<open>
  C1, as stated, fails at two inputs. With the bids \<open>Merchant-Alpha: NaN\<close> and
  \<open>Merchant-Beta: 500\<close>, in that order, \<open>max\<close> keeps the first entry, since
  \<open>500 > NaN\<close> is false, and \<open>complete_bid\<close> records the NaN bid as the winning one
  although it is not at least 500. With a single bid of 100 from the merchant whose
  identifier is the empty string, \<open>if winner_id:\<close> is false: the offer is completed
  without a winner and the 20 units go back to the stock (30 to 50).
\<close>

theorem complete_bid_winner_counterexample:
  "map_option bids (offers (foldl step init_manager
       [CreateNewOffer ''TS-A'' 20 100, TrackBid ''OFFER-1'' ''Merchant-Alpha'' NaN 50,
        TrackBid ''OFFER-1'' ''Merchant-Beta'' (amt 500) 60]) ''OFFER-1'') =
     Some [(''Merchant-Alpha'', NaN), (''Merchant-Beta'', amt 500)] \<and>
   snd (complete_bid (foldl step init_manager
       [CreateNewOffer ''TS-A'' 20 100, TrackBid ''OFFER-1'' ''Merchant-Alpha'' NaN 50,
        TrackBid ''OFFER-1'' ''Merchant-Beta'' (amt 500) 60]) ''OFFER-1'' 101) =
     Won ''Merchant-Alpha'' NaN \<and>
   \<not> float_ge NaN (amt 500) \<and>
   map_option bids (offers (foldl step init_manager
       [CreateNewOffer ''TS-A'' 20 100, TrackBid ''OFFER-1'' '''' (amt 100) 50]) ''OFFER-1'') =
     Some [('''', amt 100)] \<and>
   map_option stock (inventory (foldl step init_manager
       [CreateNewOffer ''TS-A'' 20 100, TrackBid ''OFFER-1'' '''' (amt 100) 50]) ''TS-A'') =
     Some 30 \<and>
   snd (complete_bid (foldl step init_manager
       [CreateNewOffer ''TS-A'' 20 100, TrackBid ''OFFER-1'' '''' (amt 100) 50])
       ''OFFER-1'' 101) = NoBids \<and>
   map_option winner (offers (fst (complete_bid (foldl step init_manager
       [CreateNewOffer ''TS-A'' 20 100, TrackBid ''OFFER-1'' '''' (amt 100) 50])
       ''OFFER-1'' 101)) ''OFFER-1'') = Some None \<and>
   map_option stock (inventory (fst (complete_bid (foldl step init_manager
       [CreateNewOffer ''TS-A'' 20 100, TrackBid ''OFFER-1'' '''' (amt 100) 50])
       ''OFFER-1'' 101)) ''TS-A'') = Some 50"
proof -
  have i: "inventory init_manager ''TS-A'' = Some (initial_items ! 0)"
    by (simp add: inventory_init)
  have s: "stock (initial_items ! 0) = 50" by (simp add: initial_items_def)
  have n: "next_offer_id init_manager = 1" "offers init_manager = Map.empty"
    by (simp_all add: init_manager_def)
  show ?thesis
    by (simp add: create_new_offer_def adjust_stock_def Let_def i s n str_int_1 new_Offer_def
        track_bid_def add_bid_def complete_bid_def complete_no_winner_def get_highest_bid_def
        return_stock_def)
qed

text \<open>
  C1, amended. Bids that are non-empty and hold no NaN amount have a first entry of maximum
  amount: every earlier entry is strictly lower, every later one lower or equal. For every
  active offer whose bids have such an entry (\<open>bids = pre @ (w, a) # post\<close>),
  \<open>get_highest_bid\<close> returns that entry, and \<open>complete_bid\<close> after the end time, when
  the merchant identifier \<open>w\<close> is not the empty string, sets the status to completed,
  records \<open>w\<close> as winner and \<open>a\<close> as winning bid and leaves the inventory as it was,
  so the stock stays at its level after the reservation. \<open>get_highest_bid\<close> of an offer
  without bids is \<open>(None, 0)\<close>.
\<close>

theorem complete_bid_first_maximum:
  assumes "offers m oid = Some offer" and "status offer = Active" and "end_time offer < now"
  shows "(bids offer \<noteq> [] \<and> (\<forall>e\<in>set (bids offer). snd e \<noteq> NaN) \<longrightarrow>
            (\<exists>pre w a post. bids offer = pre @ (w, a) # post \<and>
               (\<forall>e\<in>set pre. float_gt a (snd e)) \<and> (\<forall>e\<in>set post. float_ge a (snd e)))) \<and>
         (bids offer = pre @ (w, a) # post \<and>
          (\<forall>e\<in>set pre. float_gt a (snd e)) \<and> (\<forall>e\<in>set post. float_ge a (snd e)) \<longrightarrow>
            get_highest_bid offer = (Some w, a) \<and>
            (w \<noteq> [] \<longrightarrow>
               complete_bid m oid now =
                 (m\<lparr>offers := (offers m)(oid \<mapsto>
                      offer\<lparr>status := Completed, winner := Some w, winning_bid := a\<rparr>)\<rparr>,
                  Won w a) \<and>
               inventory (fst (complete_bid m oid now)) = inventory m)) \<and>
         (bids offer' = [] \<longrightarrow> get_highest_bid offer' = (None, amt 0))"
proof -
  have 1: "bids offer \<noteq> [] \<and> (\<forall>e\<in>set (bids offer). snd e \<noteq> NaN) \<longrightarrow>
            (\<exists>pre w a post. bids offer = pre @ (w, a) # post \<and>
               (\<forall>e\<in>set pre. float_gt a (snd e)) \<and> (\<forall>e\<in>set post. float_ge a (snd e)))"
    using first_max_exists [of "bids offer"] by blast
  have 2: "get_highest_bid offer = (Some w, a) \<and>
            (w \<noteq> [] \<longrightarrow>
               complete_bid m oid now =
                 (m\<lparr>offers := (offers m)(oid \<mapsto>
                      offer\<lparr>status := Completed, winner := Some w, winning_bid := a\<rparr>)\<rparr>,
                  Won w a) \<and>
               inventory (fst (complete_bid m oid now)) = inventory m)"
    if d: "bids offer = pre @ (w, a) # post" and l: "\<forall>e\<in>set pre. float_gt a (snd e)"
      and r: "\<forall>e\<in>set post. float_ge a (snd e)"
  proof -
    from get_highest_bid_first_max [OF d l r] have g: "get_highest_bid offer = (Some w, a)" .
    with assms show ?thesis by (simp add: complete_bid_def)
  qed
  have 3: "bids offer' = [] \<longrightarrow> get_highest_bid offer' = (None, amt 0)"
    by (simp add: get_highest_bid_def)
  from 1 2 3 show ?thesis by blast
qed

theorem complete_bid_first_maximum_witness:
  "offers (foldl step init_manager
       [CreateNewOffer ''TS-A'' 20 100, TrackBid ''OFFER-1'' ''Merchant-Alpha'' (amt 450) 10,
        TrackBid ''OFFER-1'' ''Merchant-Beta'' (amt 510) 20,
        TrackBid ''OFFER-1'' ''Merchant-Gamma'' (amt 510) 30]) ''OFFER-1'' =
     Some ((new_Offer ''OFFER-1'' ''TS-A'' 20 100)\<lparr>bids :=
       [(''Merchant-Alpha'', amt 450), (''Merchant-Beta'', amt 510),
        (''Merchant-Gamma'', amt 510)]\<rparr>) \<and>
   map_option stock (inventory (foldl step init_manager
       [CreateNewOffer ''TS-A'' 20 100, TrackBid ''OFFER-1'' ''Merchant-Alpha'' (amt 450) 10,
        TrackBid ''OFFER-1'' ''Merchant-Beta'' (amt 510) 20,
        TrackBid ''OFFER-1'' ''Merchant-Gamma'' (amt 510) 30]) ''TS-A'') = Some 30 \<and>
   get_highest_bid ((new_Offer ''OFFER-1'' ''TS-A'' 20 100)\<lparr>bids :=
       [(''Merchant-Alpha'', amt 450), (''Merchant-Beta'', amt 510),
        (''Merchant-Gamma'', amt 510)]\<rparr>) = (Some ''Merchant-Beta'', amt 510) \<and>
   snd (complete_bid (foldl step init_manager
       [CreateNewOffer ''TS-A'' 20 100, TrackBid ''OFFER-1'' ''Merchant-Alpha'' (amt 450) 10,
        TrackBid ''OFFER-1'' ''Merchant-Beta'' (amt 510) 20,
        TrackBid ''OFFER-1'' ''Merchant-Gamma'' (amt 510) 30]) ''OFFER-1'' 101) =
     Won ''Merchant-Beta'' (amt 510) \<and>
   map_option stock (inventory (fst (complete_bid (foldl step init_manager
       [CreateNewOffer ''TS-A'' 20 100, TrackBid ''OFFER-1'' ''Merchant-Alpha'' (amt 450) 10,
        TrackBid ''OFFER-1'' ''Merchant-Beta'' (amt 510) 20,
        TrackBid ''OFFER-1'' ''Merchant-Gamma'' (amt 510) 30]) ''OFFER-1'' 101)) ''TS-A'') =
     Some 30"
proof -
  let ?o = "(new_Offer ''OFFER-1'' ''TS-A'' 20 100)\<lparr>bids :=
       [(''Merchant-Alpha'', amt 450), (''Merchant-Beta'', amt 510),
        (''Merchant-Gamma'', amt 510)]\<rparr>"
  let ?m = "foldl step init_manager
       [CreateNewOffer ''TS-A'' 20 100, TrackBid ''OFFER-1'' ''Merchant-Alpha'' (amt 450) 10,
        TrackBid ''OFFER-1'' ''Merchant-Beta'' (amt 510) 20,
        TrackBid ''OFFER-1'' ''Merchant-Gamma'' (amt 510) 30]"
  have i: "inventory init_manager ''TS-A'' = Some (initial_items ! 0)"
    by (simp add: inventory_init)
  have s: "stock (initial_items ! 0) = 50" by (simp add: initial_items_def)
  have n: "next_offer_id init_manager = 1" "offers init_manager = Map.empty"
    by (simp_all add: init_manager_def)
  have o: "offers ?m ''OFFER-1'' = Some ?o"
    by (simp add: create_new_offer_def adjust_stock_def Let_def i s n str_int_1 new_Offer_def
        track_bid_def add_bid_def)
  have k: "map_option stock (inventory ?m ''TS-A'') = Some 30"
    by (simp add: create_new_offer_def adjust_stock_def Let_def i s n str_int_1 track_bid_def)
  have a: "status ?o = Active" and t: "end_time ?o < 101"
    by (simp_all add: new_Offer_def)
  have d: "bids ?o = [(''Merchant-Alpha'', amt 450)] @ (''Merchant-Beta'', amt 510) #
      [(''Merchant-Gamma'', amt 510)]"
    by simp
  have l: "\<forall>e\<in>set [(''Merchant-Alpha'', amt 450)]. float_gt (amt 510) (snd e)"
    and r: "\<forall>e\<in>set [(''Merchant-Gamma'', amt 510)]. float_ge (amt 510) (snd e)"
    and w: "''Merchant-Beta'' \<noteq> []"
    by simp_all
  from complete_bid_first_maximum [OF o a t, of "[(''Merchant-Alpha'', amt 450)]"
      "''Merchant-Beta''" "amt 510" "[(''Merchant-Gamma'', amt 510)]"] d l r w
  have g: "get_highest_bid ?o = (Some ''Merchant-Beta'', amt 510)"
    and c: "complete_bid ?m ''OFFER-1'' 101 =
      (?m\<lparr>offers := (offers ?m)(''OFFER-1'' \<mapsto>
         ?o\<lparr>status := Completed, winner := Some ''Merchant-Beta'', winning_bid := amt 510\<rparr>)\<rparr>,
       Won ''Merchant-Beta'' (amt 510))"
    and v: "inventory (fst (complete_bid ?m ''OFFER-1'' 101)) = inventory ?m"
    by blast+
  from c have c': "snd (complete_bid ?m ''OFFER-1'' 101) = Won ''Merchant-Beta'' (amt 510)"
    by (simp only: snd_conv)
  from o k g c' v show ?thesis by (simp only: simp_thms)
qed

subsection \<open>Offers without bids\<close>

text \<open>Where returning the quantity does not make the stock negative, \<open>complete_bid\<close>
  on an active offer without bids, after the end time, adds the quantity to the stock of
  the item and completes the offer without a winner.\<close>

lemma complete_bid_no_bids_returns_stock:
  assumes "offers m oid = Some offer" and "status offer = Active" and "end_time offer < now"
    and "bids offer = []" and "inventory m (offer_item_id offer) = Some it"
    and "0 \<le> stock it + quantity offer"
  shows "complete_bid m oid now =
           (m\<lparr>inventory := (inventory m)(offer_item_id offer \<mapsto>
                 it\<lparr>stock := stock it + quantity offer\<rparr>),
              offers := (offers m)(oid \<mapsto> offer\<lparr>status := Completed\<rparr>)\<rparr>, NoBids)"
  using assms
  by (simp add: complete_bid_def get_highest_bid_def complete_no_winner_def return_stock_def
      adjust_stock_def)

text \<open>
  C2 at the calls \<open>create_new_offer(''TS-A'', -10, end)\<close>,
  \<open>update_stock(''TS-A'', -55)\<close>, \<open>complete_bid(''OFFER-1'')\<close> after the end time.
  The stock of \<open>TS-A\<close> is 50, then 60 after the reservation of \<open>-10\<close> units, then 5.
  The offer is active and has no bids. \<open>complete_bid\<close> takes the branch without a
  winner, where \<open>adjust_stock(-10)\<close> raises (\<open>5 - 10 < 0\<close>) and the error is only
  logged: the offer is completed, the quantity is not credited, and the stock stays 5,
  neither the stock before the reservation (50) nor the stock plus the quantity.
\<close>

theorem complete_bid_no_bids_stock_kept:
  "map_option stock (inventory init_manager ''TS-A'') = Some 50 \<and>
   map_option stock (inventory (foldl step init_manager
       [CreateNewOffer ''TS-A'' (- 10) 100]) ''TS-A'') = Some 60 \<and>
   map_option stock (inventory (foldl step init_manager
       [CreateNewOffer ''TS-A'' (- 10) 100, UpdateStock ''TS-A'' (- 55)]) ''TS-A'') = Some 5 \<and>
   offers (foldl step init_manager
       [CreateNewOffer ''TS-A'' (- 10) 100, UpdateStock ''TS-A'' (- 55)]) ''OFFER-1'' =
     Some (new_Offer ''OFFER-1'' ''TS-A'' (- 10) 100) \<and>
   bids (new_Offer ''OFFER-1'' ''TS-A'' (- 10) 100) = [] \<and>
   status (new_Offer ''OFFER-1'' ''TS-A'' (- 10) 100) = Active \<and>
   snd (complete_bid (foldl step init_manager
       [CreateNewOffer ''TS-A'' (- 10) 100, UpdateStock ''TS-A'' (- 55)]) ''OFFER-1'' 101) =
     NoBids \<and>
   offers (fst (complete_bid (foldl step init_manager
       [CreateNewOffer ''TS-A'' (- 10) 100, UpdateStock ''TS-A'' (- 55)]) ''OFFER-1'' 101))
     ''OFFER-1'' = Some ((new_Offer ''OFFER-1'' ''TS-A'' (- 10) 100)\<lparr>status := Completed\<rparr>) \<and>
   map_option stock (inventory (fst (complete_bid (foldl step init_manager
       [CreateNewOffer ''TS-A'' (- 10) 100, UpdateStock ''TS-A'' (- 55)]) ''OFFER-1'' 101))
     ''TS-A'') = Some 5"
proof -
  have i: "inventory init_manager ''TS-A'' = Some (initial_items ! 0)"
    by (simp add: inventory_init)
  have s: "stock (initial_items ! 0) = 50" by (simp add: initial_items_def)
  have n: "next_offer_id init_manager = 1" "offers init_manager = Map.empty"
    by (simp_all add: init_manager_def)
  show ?thesis
    by (simp add: create_new_offer_def adjust_stock_def Let_def i s n str_int_1 new_Offer_def
        update_stock_def complete_bid_def complete_no_winner_def get_highest_bid_def
        return_stock_def)
qed

end
